theory Spec2Isabelle
  imports Complex_Main "HOL-Library.Sublist"
begin

section \<open>Strings\<close>

text \<open>
  Strings are character lists. HTTP method names, paths and URLs are ASCII, and
  \<open>toUpperCase\<close> is modelled on the ASCII letters: \<open>a\<close>..\<open>z\<close> go to \<open>A\<close>..\<open>Z\<close>, every
  other character is kept.
\<close>

definition toUpperCase_char :: "char \<Rightarrow> char" where
  "toUpperCase_char c =
     (case map_of (zip ''abcdefghijklmnopqrstuvwxyz'' ''ABCDEFGHIJKLMNOPQRSTUVWXYZ'') c of
        Some u \<Rightarrow> u
      | None \<Rightarrow> c)"

definition toUpperCase :: "string \<Rightarrow> string" where
  "toUpperCase s = map toUpperCase_char s"

text \<open>
  \<open>url.includes(p)\<close>: \<open>p\<close> occurs in \<open>url\<close> as a contiguous run of characters, found by
  trying every start position from the left.
\<close>

fun str_includes :: "string \<Rightarrow> string \<Rightarrow> bool" where
  "str_includes [] p = (p = [])"
| "str_includes (c # cs) p = (prefix p (c # cs) \<or> str_includes cs p)"

section \<open>The HTTP mock registry\<close>

text \<open>
  \<open>HttpRequest\<close> and \<open>MockHttpHandler\<close> are the interfaces of the source. The body of a
  request and the response of a handler are not inspected by the registry and stay
  type parameters. The \<open>method\<close> field of a request is \<open>req_method\<close>, and the fields of a
  handler carry the prefix \<open>h_\<close>.
\<close>

record 'b HttpRequest =
  req_method :: string
  url :: string
  headers :: "(string \<times> string) list option"
  body :: "'b option"

text \<open>
  A \<open>RegExp\<close> is its source and its flags. Converting it to a string, as the template
  literal in \<open>register\<close> does, gives \<open>/source/flags\<close>. Its \<open>test\<close> method belongs to the
  JavaScript runtime and is a parameter \<open>rtest\<close> of the model.
\<close>

datatype RegExp = RegExp (source: string) (flags: string)

datatype path_pattern = PathString string | PathRegExp RegExp

record 'r MockHttpHandler =
  h_method :: string
  h_path :: path_pattern
  h_response :: 'r
  h_delay :: "int option"

fun path_to_string :: "path_pattern \<Rightarrow> string" where
  "path_to_string (PathString s) = s"
| "path_to_string (PathRegExp re) = ''/'' @ source re @ ''/'' @ flags re"

text \<open>
  The registry: \<open>handlers\<close> is the \<open>Map\<close> from a key string to the list of handlers stored
  under it, \<open>requests\<close> the array of recorded requests.
\<close>

record ('r, 'b) HttpMockRegistry =
  handlers :: "string \<rightharpoonup> 'r MockHttpHandler list"
  requests :: "'b HttpRequest list"

definition createHttpMockRegistry :: "('r, 'b) HttpMockRegistry" where
  "createHttpMockRegistry = \<lparr>handlers = Map.empty, requests = []\<rparr>"

text \<open>\<open>this.handlers.get(key) || []\<close>\<close>

definition get_or_empty :: "(string \<rightharpoonup> 'a list) \<Rightarrow> string \<Rightarrow> 'a list" where
  "get_or_empty m key = (case m key of None \<Rightarrow> [] | Some hs \<Rightarrow> hs)"

text \<open>
  \<open>register\<close> stores the handler under the key made of the upper-cased method, a colon
  and the handler's own path.
\<close>

definition register_key :: "'r MockHttpHandler \<Rightarrow> string" where
  "register_key handler = toUpperCase (h_method handler) @ '':'' @ path_to_string (h_path handler)"

definition register ::
  "'r MockHttpHandler \<Rightarrow> ('r, 'b) HttpMockRegistry \<Rightarrow> ('r, 'b) HttpMockRegistry" where
  "register handler reg =
     (let key = register_key handler;
          hs = get_or_empty (handlers reg) key
      in reg\<lparr>handlers := (handlers reg)(key \<mapsto> hs @ [handler])\<rparr>)"

definition mockGet ::
  "path_pattern \<Rightarrow> 'r \<Rightarrow> int option \<Rightarrow> ('r, 'b) HttpMockRegistry \<Rightarrow> ('r, 'b) HttpMockRegistry" where
  "mockGet path response delay reg =
     register \<lparr>h_method = ''GET'', h_path = path, h_response = response, h_delay = delay\<rparr> reg"

definition pathMatches :: "(RegExp \<Rightarrow> string \<Rightarrow> bool) \<Rightarrow> string \<Rightarrow> path_pattern \<Rightarrow> bool" where
  "pathMatches rtest u pathPattern =
     (case pathPattern of
        PathString s \<Rightarrow> str_includes u s
      | PathRegExp re \<Rightarrow> rtest re u)"

text \<open>
  \<open>getHandler\<close> reads the list stored under the upper-cased method, a colon and the
  literal character \<open>*\<close>, and returns the first handler of that list whose path matches.
\<close>

definition getHandler_key :: "'b HttpRequest \<Rightarrow> string" where
  "getHandler_key request = toUpperCase (req_method request) @ '':*''"

fun first_match ::
  "(RegExp \<Rightarrow> string \<Rightarrow> bool) \<Rightarrow> string \<Rightarrow> 'r MockHttpHandler list \<Rightarrow> 'r MockHttpHandler option" where
  "first_match rtest u [] = None"
| "first_match rtest u (handler # rest) =
     (if pathMatches rtest u (h_path handler) then Some handler else first_match rtest u rest)"

definition getHandler ::
  "(RegExp \<Rightarrow> string \<Rightarrow> bool) \<Rightarrow> ('r, 'b) HttpMockRegistry \<Rightarrow> 'b HttpRequest
     \<Rightarrow> 'r MockHttpHandler option" where
  "getHandler rtest reg request =
     first_match rtest (url request) (get_or_empty (handlers reg) (getHandler_key request))"

definition recordRequest ::
  "'b HttpRequest \<Rightarrow> ('r, 'b) HttpMockRegistry \<Rightarrow> ('r, 'b) HttpMockRegistry" where
  "recordRequest request reg = reg\<lparr>requests := requests reg @ [request]\<rparr>"

definition getRequests :: "('r, 'b) HttpMockRegistry \<Rightarrow> 'b HttpRequest list" where
  "getRequests reg = requests reg"

definition getRequestsByMethod :: "string \<Rightarrow> ('r, 'b) HttpMockRegistry \<Rightarrow> 'b HttpRequest list" where
  "getRequestsByMethod m reg =
     filter (\<lambda>req. toUpperCase (req_method req) = toUpperCase m) (requests reg)"

definition getRequestsByPath :: "string \<Rightarrow> ('r, 'b) HttpMockRegistry \<Rightarrow> 'b HttpRequest list" where
  "getRequestsByPath path reg = filter (\<lambda>req. str_includes (url req) path) (requests reg)"

text \<open>
  \<open>clear\<close> runs two statements in a row: it empties the map, then replaces the array.
  The method is synchronous and calls nothing in between.
\<close>

definition clear :: "('r, 'b) HttpMockRegistry \<Rightarrow> ('r, 'b) HttpMockRegistry" where
  "clear reg = (let reg1 = reg\<lparr>handlers := Map.empty\<rparr> in reg1\<lparr>requests := []\<rparr>)"

section \<open>Numbers as text\<close>

text \<open>
  The decimal text of a number, as a template literal renders an integer.
\<close>

definition digit_char :: "nat \<Rightarrow> char" where
  "digit_char d = ''0123456789'' ! (d mod 10)"

function decimal :: "nat \<Rightarrow> string" where
  "decimal n = (if n < 10 then [digit_char n] else decimal (n div 10) @ [digit_char (n mod 10)])"
  by pat_completeness auto
termination
  by (relation "measure (\<lambda>n. n)") auto

declare decimal.simps [simp del]

definition number_to_string :: "int \<Rightarrow> string" where
  "number_to_string i = (if 0 \<le> i then decimal (nat i) else CHR ''-'' # decimal (nat (- i)))"

section \<open>Errors and thrown values\<close>

text \<open>
  An \<open>Error\<close> object is its message. JavaScript lets any value be thrown: a thrown value
  is either an \<open>Error\<close> instance or another value, which is represented by its string
  conversion, the only thing \<open>retry\<close> reads of it.
  \<open>toError\<close> is \<open>error instanceof Error ? error : new Error(String(error))\<close>.
\<close>

datatype Error = Error string

datatype thrown = ErrorInstance Error | NonError string

fun toError :: "thrown \<Rightarrow> Error" where
  "toError (ErrorInstance e) = e"
| "toError (NonError s) = Error s"

section \<open>retry\<close>

text \<open>
  The options of \<open>retry\<close>; an absent field is \<open>None\<close> and takes its default.
  \<open>maxAttempts\<close> is an integer, the delay and the multiplier are exact real numbers
  (the rounding of floating-point numbers is not part of this development).
  \<open>onRetry\<close> is the optional callback. Called with the attempt and the error, it either
  returns (\<open>None\<close>) or throws a value (\<open>Some\<close> of it).
\<close>

type_synonym callback = "nat \<Rightarrow> Error \<Rightarrow> thrown option"

record retry_options =
  maxAttempts :: "int option"
  delayMs :: "real option"
  backoffMultiplier :: "real option"
  onRetry :: "callback option"

text \<open>
  What \<open>retry\<close> does to its surroundings is a trace of events: it invokes the
  operation, it calls \<open>onRetry(attempt, error)\<close>, it waits on \<open>setTimeout(resolve, delay)\<close>.
  The surroundings count the invocations of the operation: the operation is the function
  \<open>fn\<close> from the number of an invocation (1, 2, ...) to its outcome, \<open>Inl\<close> a thrown value
  (or a rejected promise), \<open>Inr\<close> the value it resolves to; every invocation settles.
  A \<open>SetTimeout\<close> event carries the delay handed to \<open>setTimeout\<close>.
\<close>

datatype event = Invoke | OnRetry nat Error | SetTimeout real

record retry_world =
  calls :: nat
  trace :: "event list"

definition world0 :: retry_world where
  "world0 = \<lparr>calls = 0, trace = []\<rparr>"

definition emit :: "event \<Rightarrow> retry_world \<Rightarrow> retry_world" where
  "emit e w = w\<lparr>trace := trace w @ [e]\<rparr>"

definition invoke :: "(nat \<Rightarrow> thrown + 'a) \<Rightarrow> retry_world \<Rightarrow> (thrown + 'a) \<times> retry_world" where
  "invoke fn w = (fn (Suc (calls w)), emit Invoke (w\<lparr>calls := Suc (calls w)\<rparr>))"

text \<open>
  \<open>onRetry?.(attempt, lastError)\<close>: nothing happens without a callback; with one, the call
  is an event and its outcome is what the callback does.
\<close>

definition call_onRetry ::
  "callback option \<Rightarrow> nat \<Rightarrow> Error \<Rightarrow> retry_world \<Rightarrow> thrown option \<times> retry_world" where
  "call_onRetry cb attempt e w =
     (case cb of
        None \<Rightarrow> (None, w)
      | Some f \<Rightarrow> (f attempt e, emit (OnRetry attempt e) w))"

text \<open>
  The \<open>for\<close> loop. It is left by the \<open>return\<close> inside \<open>try\<close>, or by an exception of the
  callback, which nothing inside \<open>retry\<close> catches, or by its condition failing, with the
  variable \<open>lastError\<close> as it then stands. \<open>attempt\<close> is at least 1 throughout, so the
  exponent \<open>attempt - 1\<close> is a natural number.
\<close>

datatype 'a loop_exit = Return 'a | CallbackThrew thrown | Exhausted "Error option"

function retry_loop ::
  "(nat \<Rightarrow> thrown + 'a) \<Rightarrow> int \<Rightarrow> real \<Rightarrow> real \<Rightarrow> callback option \<Rightarrow> nat \<Rightarrow> Error option
     \<Rightarrow> retry_world \<Rightarrow> 'a loop_exit \<times> retry_world" where
  "retry_loop fn maxA d b cb attempt lastError w =
     (if int attempt \<le> maxA then
        (case invoke fn w of
           (Inr v, w1) \<Rightarrow> (Return v, w1)
         | (Inl error, w1) \<Rightarrow>
             (let lastError' = toError error in
              if int attempt < maxA then
                (let delay = d * b ^ (attempt - 1) in
                 case call_onRetry cb attempt lastError' w1 of
                   (Some exn, w2) \<Rightarrow> (CallbackThrew exn, w2)
                 | (None, w2) \<Rightarrow>
                     retry_loop fn maxA d b cb (Suc attempt) (Some lastError')
                       (emit (SetTimeout delay) w2))
              else retry_loop fn maxA d b cb (Suc attempt) (Some lastError') w1))
      else (Exhausted lastError, w))"
  by pat_completeness auto
termination
  by (relation "measure (\<lambda>(fn, maxA, d, b, cb, attempt, lastError, w). nat (maxA + 1 - int attempt))")
    auto

declare retry_loop.simps [simp del]

text \<open>
  A promise settles: it resolves to a value or is rejected with a thrown value.
  After the loop, \<open>throw lastError || new Error('Max retry attempts reached')\<close>.
\<close>

datatype 'a settled = Resolved 'a | Rejected thrown

definition effective_maxAttempts :: "retry_options \<Rightarrow> int" where
  "effective_maxAttempts options = (case maxAttempts options of None \<Rightarrow> 3 | Some n \<Rightarrow> n)"

definition effective_delayMs :: "retry_options \<Rightarrow> real" where
  "effective_delayMs options = (case delayMs options of None \<Rightarrow> 100 | Some x \<Rightarrow> x)"

definition effective_backoffMultiplier :: "retry_options \<Rightarrow> real" where
  "effective_backoffMultiplier options = (case backoffMultiplier options of None \<Rightarrow> 2 | Some x \<Rightarrow> x)"

definition retry_exit ::
  "(nat \<Rightarrow> thrown + 'a) \<Rightarrow> retry_options \<Rightarrow> retry_world \<Rightarrow> 'a loop_exit \<times> retry_world" where
  "retry_exit fn options w =
     retry_loop fn (effective_maxAttempts options) (effective_delayMs options)
       (effective_backoffMultiplier options) (onRetry options) 1 None w"

definition retry ::
  "(nat \<Rightarrow> thrown + 'a) \<Rightarrow> retry_options \<Rightarrow> retry_world \<Rightarrow> 'a settled \<times> retry_world" where
  "retry fn options w =
     (case retry_exit fn options w of
        (Return v, w') \<Rightarrow> (Resolved v, w')
      | (CallbackThrew exn, w') \<Rightarrow> (Rejected exn, w')
      | (Exhausted lastError, w') \<Rightarrow>
          (Rejected (ErrorInstance (case lastError of
                       Some e \<Rightarrow> e
                     | None \<Rightarrow> Error ''Max retry attempts reached'')), w'))"



definition invocations :: "retry_world \<Rightarrow> nat" where
  "invocations w = length (filter (\<lambda>ev. ev = Invoke) (trace w))"

section \<open>waitUntil\<close>

text \<open>
  The options of \<open>waitUntil\<close>, times in milliseconds.
\<close>

record waitUntil_options =
  timeoutMs :: "int option"
  pollIntervalMs :: "int option"
  message :: "string option"

text \<open>
  The surroundings of \<open>waitUntil\<close> hold the clock that \<open>Date.now()\<close> reads, the number of
  evaluations of the condition so far, and the delays handed to \<open>setTimeout\<close>. The clock
  moves only while \<open>waitUntil\<close> is suspended: awaiting the \<open>k\<close>-th evaluation of the
  condition takes \<open>took k\<close> milliseconds, and the \<open>j\<close>-th timer fires \<open>late j\<close> milliseconds
  after its delay; both are arbitrary natural numbers. The condition is the function from
  the number of an evaluation to its outcome: \<open>Inl\<close> a thrown value, \<open>Inr\<close> the boolean;
  every evaluation settles.
\<close>

record timing =
  took :: "nat \<Rightarrow> nat"
  late :: "nat \<Rightarrow> nat"

record poll_world =
  now :: int
  evaluations :: nat
  sleeps :: "int list"

datatype wait_result = Returned | Threw Error

definition evaluate ::
  "timing \<Rightarrow> (nat \<Rightarrow> thrown + bool) \<Rightarrow> poll_world \<Rightarrow> (thrown + bool) \<times> poll_world" where
  "evaluate tm condition w =
     (let k = Suc (evaluations w)
      in (condition k, w\<lparr>now := now w + int (took tm k), evaluations := k\<rparr>))"

definition sleep :: "timing \<Rightarrow> int \<Rightarrow> poll_world \<Rightarrow> poll_world" where
  "sleep tm ms w =
     (let j = Suc (length (sleeps w))
      in w\<lparr>now := now w + max 0 ms + int (late tm j), sleeps := sleeps w @ [ms]\<rparr>)"

text \<open>
  The \<open>while\<close> loop may run forever (a poll interval of 0 on a clock that stands still),
  so it is a partial function: \<open>None\<close> is the run that never ends. \<open>err\<close> is the error
  thrown after the loop.
\<close>

partial_function (option) waitUntil_loop ::
  "timing \<Rightarrow> (nat \<Rightarrow> thrown + bool) \<Rightarrow> int \<Rightarrow> int \<Rightarrow> Error \<Rightarrow> int \<Rightarrow> poll_world
     \<Rightarrow> (wait_result \<times> poll_world) option" where
  "waitUntil_loop tm condition timeout interval err startTime w =
     (if now w - startTime < timeout then
        (case evaluate tm condition w of
           (Inr result, w1) \<Rightarrow>
             (if result then Some (Returned, w1)
              else waitUntil_loop tm condition timeout interval err startTime (sleep tm interval w1))
         | (Inl error, w1) \<Rightarrow>
             waitUntil_loop tm condition timeout interval err startTime (sleep tm interval w1))
      else Some (Threw err, w))"

definition effective_timeoutMs :: "waitUntil_options \<Rightarrow> int" where
  "effective_timeoutMs options = (case timeoutMs options of None \<Rightarrow> 5000 | Some t \<Rightarrow> t)"

definition effective_pollIntervalMs :: "waitUntil_options \<Rightarrow> int" where
  "effective_pollIntervalMs options = (case pollIntervalMs options of None \<Rightarrow> 100 | Some t \<Rightarrow> t)"

definition effective_message :: "waitUntil_options \<Rightarrow> string" where
  "effective_message options =
     (case message options of None \<Rightarrow> ''Timeout waiting for condition'' | Some m \<Rightarrow> m)"

definition timeout_error :: "waitUntil_options \<Rightarrow> Error" where
  "timeout_error options =
     Error (effective_message options @ '' (timeout: ''
            @ number_to_string (effective_timeoutMs options) @ ''ms)'')"

definition waitUntil ::
  "timing \<Rightarrow> (nat \<Rightarrow> thrown + bool) \<Rightarrow> waitUntil_options \<Rightarrow> poll_world
     \<Rightarrow> (wait_result \<times> poll_world) option" where
  "waitUntil tm condition options w =
     (let startTime = now w
      in waitUntil_loop tm condition (effective_timeoutMs options)
           (effective_pollIntervalMs options) (timeout_error options) startTime w)"

definition default_options :: waitUntil_options where
  "default_options = \<lparr>timeoutMs = None, pollIntervalMs = None, message = None\<rparr>"

text \<open>A condition whose throwing evaluations return \<open>false\<close> instead.\<close>

fun throw_as_false :: "thrown + bool \<Rightarrow> thrown + bool" where
  "throw_as_false (Inl error) = Inr False"
| "throw_as_false (Inr result) = Inr result"

section \<open>Sequences of calls and expected traces\<close>

text \<open>
  A sequence of \<open>recordRequest\<close> calls and a sequence of \<open>register\<close> calls, each applied
  from left to right.
\<close>

definition record_all :: "'b HttpRequest list \<Rightarrow> ('r, 'b) HttpMockRegistry \<Rightarrow> ('r, 'b) HttpMockRegistry" where
  "record_all reqs reg = foldl (\<lambda>r q. recordRequest q r) reg reqs"

definition register_all :: "'r MockHttpHandler list \<Rightarrow> ('r, 'b) HttpMockRegistry \<Rightarrow> ('r, 'b) HttpMockRegistry" where
  "register_all hs reg = foldl (\<lambda>r h. register h r) reg hs"

text \<open>
  The events of one failed attempt \<open>k\<close> that is retried: the invocation, the callback when
  there is one, and the wait of \<open>delayMs * backoffMultiplier ^ (k - 1)\<close>. A run whose
  attempts \<open>a\<close>, ..., \<open>m - 1\<close> fail and are retried and whose last attempt is \<open>m\<close> is
  expected to leave these events followed by the last invocation. \<open>t k\<close> is the value
  thrown by invocation \<open>k\<close>.
\<close>

definition retried_attempt :: "bool \<Rightarrow> real \<Rightarrow> real \<Rightarrow> (nat \<Rightarrow> thrown) \<Rightarrow> nat \<Rightarrow> event list" where
  "retried_attempt cb d b t k =
     [Invoke] @ (if cb then [OnRetry k (toError (t k))] else []) @ [SetTimeout (d * b ^ (k - 1))]"

definition expected_trace :: "bool \<Rightarrow> real \<Rightarrow> real \<Rightarrow> (nat \<Rightarrow> thrown) \<Rightarrow> nat \<Rightarrow> nat \<Rightarrow> event list" where
  "expected_trace cb d b t a m = concat (map (retried_attempt cb d b t) [a..<m]) @ [Invoke]"

text \<open>How the loop is left after its last invocation.\<close>

definition exit_of :: "thrown + 'a \<Rightarrow> 'a loop_exit" where
  "exit_of outcome = (case outcome of Inr v \<Rightarrow> Return v | Inl error \<Rightarrow> Exhausted (Some (toError error)))"

text \<open>
  One unsuccessful round of polling, as it changes the surroundings: the condition is
  evaluated, then \<open>waitUntil\<close> sleeps for the poll interval. \<open>after_polls n\<close> is the
  surroundings after \<open>n\<close> such rounds.
\<close>

definition poll_once :: "timing \<Rightarrow> (nat \<Rightarrow> thrown + bool) \<Rightarrow> int \<Rightarrow> poll_world \<Rightarrow> poll_world" where
  "poll_once tm condition interval w = sleep tm interval (snd (evaluate tm condition w))"

fun after_polls :: "timing \<Rightarrow> (nat \<Rightarrow> thrown + bool) \<Rightarrow> int \<Rightarrow> nat \<Rightarrow> poll_world \<Rightarrow> poll_world" where
  "after_polls tm condition interval 0 w = w"
| "after_polls tm condition interval (Suc n) w =
     after_polls tm condition interval n (poll_once tm condition interval w)"

section \<open>Properties of the registry\<close>

lemma str_includes_iff_sublist: "str_includes u p \<longleftrightarrow> sublist p u"
  by (induction u) (auto simp: sublist_Cons_right)

lemma requests_record_all: "requests (record_all reqs reg) = requests reg @ reqs"
  unfolding record_all_def
  by (induction reqs arbitrary: reg) (simp_all add: recordRequest_def)

lemma handlers_register_all:
  "get_or_empty (handlers (register_all hs reg)) key =
     get_or_empty (handlers reg) key @ filter (\<lambda>h. register_key h = key) hs"
  unfolding register_all_def
  by (induction hs arbitrary: reg) (simp_all add: register_def get_or_empty_def Let_def)

text \<open>
  What \<open>getHandler\<close> finds after any sequence of \<open>register\<close> calls on a new registry: the
  first matching handler among those whose \<open>register\<close> key is the key \<open>getHandler\<close> reads.
\<close>

lemma getHandler_register_all:
  "getHandler rtest (register_all hs createHttpMockRegistry) request =
     first_match rtest (url request) (filter (\<lambda>h. register_key h = getHandler_key request) hs)"
  by (simp add: getHandler_def handlers_register_all) (simp add: createHttpMockRegistry_def get_or_empty_def)

text \<open>
  C1. The claim: \<open>getHandler(request)\<close> returns the first handler registered for the
  request's method whose path pattern matches the URL; after \<open>register(GET, "/a", R1)\<close> and
  \<open>register(GET, "/a", R2)\<close>, \<open>getHandler({method: GET, url: "/a"})\<close> returns \<open>R1\<close>.
  The code stores both handlers under the key \<open>GET:/a\<close> and \<open>getHandler\<close> reads the key
  \<open>GET:*\<close>, under which nothing is stored: it returns nothing, for every regular-expression
  engine.
\<close>

theorem getHandler_misses_registered_path:
  "\<forall>rtest. getHandler rtest
     (register \<lparr>h_method = ''GET'', h_path = PathString ''/a'', h_response = 2, h_delay = None\<rparr>
       (register \<lparr>h_method = ''GET'', h_path = PathString ''/a'', h_response = 1, h_delay = None\<rparr>
         (createHttpMockRegistry :: (nat, unit) HttpMockRegistry)))
     \<lparr>req_method = ''GET'', url = ''/a'', headers = None, body = None\<rparr> = None"
  by (simp add: getHandler_def getHandler_key_def register_def register_key_def get_or_empty_def
      createHttpMockRegistry_def toUpperCase_def toUpperCase_char_def Let_def)

text \<open>
  C7, as amended. After any sequence of \<open>recordRequest\<close> calls on a new registry,
  \<open>getRequestsByMethod(m)\<close> returns exactly the recorded requests whose upper-cased method
  equals the upper-cased \<open>m\<close>, in insertion order.
\<close>

theorem getRequestsByMethod_ignores_case:
  "getRequestsByMethod m (record_all reqs createHttpMockRegistry) =
     filter (\<lambda>req. toUpperCase (req_method req) = toUpperCase m) reqs"
  by (simp add: getRequestsByMethod_def requests_record_all createHttpMockRegistry_def)

text \<open>
  C7 as first stated asks for the requests whose method equals \<open>m\<close>. A request recorded
  with the method \<open>get\<close> is returned for \<open>m = GET\<close>, and its method is not \<open>GET\<close>.
\<close>

theorem getRequestsByMethod_exact_counterexample:
  "getRequestsByMethod ''GET''
     (recordRequest \<lparr>req_method = ''get'', url = ''/x'', headers = None, body = None\<rparr>
        (createHttpMockRegistry :: (unit, unit) HttpMockRegistry))
     = [\<lparr>req_method = ''get'', url = ''/x'', headers = None, body = None\<rparr>]
   \<and> req_method \<lparr>req_method = ''get'', url = ''/x'', headers = None, body = (None :: unit option)\<rparr> \<noteq> ''GET''"
  by (simp add: getRequestsByMethod_def recordRequest_def createHttpMockRegistry_def
      toUpperCase_def toUpperCase_char_def)

text \<open>
  C8. After \<open>clear()\<close>, from every registry state, every \<open>getHandler\<close> call returns nothing
  and \<open>getRequests\<close> returns the empty list. \<open>clear\<close> is one synchronous method, so its
  callers see the registry before it or after it; the registry after it is the new, empty
  registry, with both parts reset.
\<close>

theorem clear_resets_handlers_and_requests:
  "getHandler rtest (clear reg) request = None \<and> getRequests (clear reg) = []
   \<and> clear reg = createHttpMockRegistry"
  by (simp add: clear_def getHandler_def getRequests_def get_or_empty_def createHttpMockRegistry_def Let_def)

section \<open>Properties of retry\<close>

lemma expected_trace_last: "expected_trace cb d b t m m = [Invoke]"
  by (simp add: expected_trace_def)

lemma expected_trace_step:
  "a < m \<Longrightarrow> expected_trace cb d b t a m = retried_attempt cb d b t a @ expected_trace cb d b t (Suc a) m"
  by (simp add: expected_trace_def upt_conv_Cons)

lemma retry_loop_last:
  assumes "Suc (calls w) = m" and "int m \<le> maxA" and "isl (fn m) \<longrightarrow> int m = maxA"
  shows "retry_loop fn maxA d b cb m le w =
           (exit_of (fn m), w\<lparr>calls := m, trace := trace w @ [Invoke]\<rparr>)"
proof (cases "fn m")
  case (Inr v)
  with assms show ?thesis
    by (subst retry_loop.simps) (simp add: invoke_def emit_def exit_of_def)
next
  case (Inl error)
  with assms have "int m = maxA" by simp
  with assms Inl show ?thesis
    apply (subst retry_loop.simps)
    apply (simp add: invoke_def emit_def exit_of_def)
    apply (subst retry_loop.simps)
    apply simp
    done
qed

text \<open>A failed attempt that is not the last, with a callback that returns, goes on to the next.\<close>

lemma retry_loop_step:
  assumes "Suc (calls w) = a" and "int a < maxA" and "fn a = Inl (t a)"
    and "\<forall>f. cb = Some f \<longrightarrow> f a (toError (t a)) = None"
  shows "retry_loop fn maxA d b cb a le w =
           retry_loop fn maxA d b cb (Suc a) (Some (toError (t a)))
             (w\<lparr>calls := a, trace := trace w @ retried_attempt (cb \<noteq> None) d b t a\<rparr>)"
proof (cases cb)
  case None
  with assms show ?thesis
    by (subst retry_loop.simps)
      (simp add: invoke_def emit_def call_onRetry_def retried_attempt_def Let_def)
next
  case (Some f)
  with assms have "f a (toError (t a)) = None" by simp
  with assms Some show ?thesis
    by (subst retry_loop.simps)
      (simp add: invoke_def emit_def call_onRetry_def retried_attempt_def Let_def)
qed

text \<open>A failed attempt that is not the last, with a callback that throws, ends the run.\<close>

lemma retry_loop_callback_throws:
  assumes "Suc (calls w) = a" and "int a < maxA" and "fn a = Inl thrown_value"
    and "f a (toError thrown_value) = Some exn"
  shows "retry_loop fn maxA d b (Some f) a le w =
           (CallbackThrew exn,
            w\<lparr>calls := a, trace := trace w @ [Invoke, OnRetry a (toError thrown_value)]\<rparr>)"
  using assms
  by (subst retry_loop.simps) (simp add: invoke_def emit_def call_onRetry_def Let_def)

text \<open>
  The run of the loop from attempt \<open>a\<close>, when the attempts before \<open>m\<close> fail, the callback
  returns from its calls for them, and attempt \<open>m\<close> either succeeds or is the last one
  allowed.
\<close>

lemma retry_loop_run:
  assumes "1 \<le> a" and "a \<le> m" and "int m \<le> maxA"
    and "\<forall>k. a \<le> k \<and> k < m \<longrightarrow> fn k = Inl (t k)"
    and "calls w = a - 1"
    and "isl (fn m) \<longrightarrow> int m = maxA"
    and "\<forall>f. cb = Some f \<longrightarrow> (\<forall>k. a \<le> k \<and> k < m \<longrightarrow> f k (toError (t k)) = None)"
  shows "retry_loop fn maxA d b cb a le w =
           (exit_of (fn m), w\<lparr>calls := m, trace := trace w @ expected_trace (cb \<noteq> None) d b t a m\<rparr>)"
  using assms
proof (induction "m - a" arbitrary: a le w)
  case 0
  then have "a = m" and "Suc (calls w) = m" by auto
  with 0 show ?case
    by (simp add: retry_loop_last expected_trace_last)
next
  case (Suc x)
  then have lt: "a < m" and sc: "Suc (calls w) = a" and fa: "fn a = Inl (t a)"
    by auto
  from lt Suc.prems have small: "int a < maxA" by simp
  from lt Suc.prems(7) have ret: "\<forall>f. cb = Some f \<longrightarrow> f a (toError (t a)) = None"
    by auto
  let ?w = "w\<lparr>calls := a, trace := trace w @ retried_attempt (cb \<noteq> None) d b t a\<rparr>"
  have "retry_loop fn maxA d b cb (Suc a) (Some (toError (t a))) ?w =
          (exit_of (fn m), ?w\<lparr>calls := m, trace := trace ?w @ expected_trace (cb \<noteq> None) d b t (Suc a) m\<rparr>)"
    using Suc.hyps(2) lt Suc.prems by (intro Suc.hyps(1)) auto
  moreover have "retry_loop fn maxA d b cb a le w =
      retry_loop fn maxA d b cb (Suc a) (Some (toError (t a))) ?w"
    using sc small fa ret by (rule retry_loop_step)
  ultimately show ?case
    using lt by (simp add: expected_trace_step)
qed


lemma invocations_concat:
  "length (filter (\<lambda>ev. ev = Invoke) (concat (map (retried_attempt cb d b t) ks))) = length ks"
  by (induction ks) (simp_all add: retried_attempt_def)

lemma retry_run:
  assumes "1 \<le> m" and "int m \<le> effective_maxAttempts options"
    and "\<forall>k. 1 \<le> k \<and> k < m \<longrightarrow> fn k = Inl (t k)"
    and "isl (fn m) \<longrightarrow> int m = effective_maxAttempts options"
    and "\<forall>f. onRetry options = Some f \<longrightarrow> (\<forall>k. 1 \<le> k \<and> k < m \<longrightarrow> f k (toError (t k)) = None)"
  shows "retry_exit fn options world0 =
           (exit_of (fn m),
            \<lparr>calls = m,
             trace = expected_trace (onRetry options \<noteq> None) (effective_delayMs options)
                       (effective_backoffMultiplier options) t 1 m\<rparr>)"
proof -
  have "retry_loop fn (effective_maxAttempts options) (effective_delayMs options)
          (effective_backoffMultiplier options) (onRetry options) 1 None world0 =
        (exit_of (fn m), world0\<lparr>calls := m, trace := trace world0 @
           expected_trace (onRetry options \<noteq> None) (effective_delayMs options)
             (effective_backoffMultiplier options) t 1 m\<rparr>)"
    using assms by (intro retry_loop_run) (simp_all add: world0_def)
  then show ?thesis
    by (simp add: retry_exit_def world0_def)
qed

lemma retry_loop_no_attempt:
  "maxA < 1 \<Longrightarrow> retry_loop fn maxA d b cb (Suc 0) le w = (Exhausted le, w)"
  by (subst retry_loop.simps) simp

text \<open>
  When the loop runs out of attempts, \<open>lastError\<close> holds the error made from what the last
  allowed invocation threw, whatever the operation and the callback did before.
\<close>

lemma retry_loop_exhausted:
  assumes "1 \<le> a" and "int a \<le> maxA" and "Suc (calls w) = a"
    and "retry_loop fn maxA d b cb a le w = (Exhausted x, w')"
  shows "\<exists>e. fn (nat maxA) = Inl e \<and> x = Some (toError e)"
  using assms
proof (induction "nat maxA - a" arbitrary: a le w)
  case 0
  then have last: "int a = maxA" by simp
  then have na: "nat maxA = a" by auto
  have "retry_loop fn maxA d b cb a le w = (exit_of (fn a), w\<lparr>calls := a, trace := trace w @ [Invoke]\<rparr>)"
    using 0 last by (intro retry_loop_last) simp_all
  with 0 have exit: "exit_of (fn a) = Exhausted x" by simp
  show ?case
  proof (cases "fn a")
    case (Inl e)
    with exit have "x = Some (toError e)" by (simp add: exit_of_def)
    with Inl show ?thesis unfolding na by blast
  next
    case (Inr v)
    with exit show ?thesis by (simp add: exit_of_def)
  qed
next
  case (Suc n)
  then have small: "int a < maxA" by simp
  show ?case
  proof (cases "fn a")
    case (Inr v)
    have "retry_loop fn maxA d b cb a le w = (Return v, emit Invoke (w\<lparr>calls := a\<rparr>))"
      using Suc.prems(3) small Inr by (subst retry_loop.simps) (simp add: invoke_def)
    with Suc.prems(4) show ?thesis by simp
  next
    case (Inl e)
    show ?thesis
    proof (cases "\<exists>f exn. cb = Some f \<and> f a (toError e) = Some exn")
      case True
      then obtain f exn where "cb = Some f" and "f a (toError e) = Some exn" by blast
      with Suc.prems(3) small Inl
      have "fst (retry_loop fn maxA d b cb a le w) = CallbackThrew exn"
        by (simp add: retry_loop_callback_throws)
      with Suc.prems(4) show ?thesis by simp
    next
      case False
      then have ret: "\<forall>f. cb = Some f \<longrightarrow> f a (toError e) = None" by auto
      let ?w = "w\<lparr>calls := a, trace := trace w @ retried_attempt (cb \<noteq> None) d b (\<lambda>k. e) a\<rparr>"
      have "retry_loop fn maxA d b cb a le w = retry_loop fn maxA d b cb (Suc a) (Some (toError e)) ?w"
        using Suc.prems(3) small Inl ret by (intro retry_loop_step) simp_all
      with Suc.prems(4) have "retry_loop fn maxA d b cb (Suc a) (Some (toError e)) ?w = (Exhausted x, w')"
        by simp
      moreover have "n = nat maxA - Suc a" using Suc.hyps(2) by simp
      ultimately show ?thesis
        using small by (intro Suc.hyps(1) [of "Suc a" ?w "Some (toError e)"]) simp_all
    qed
  qed
qed



text \<open>
  C3, as amended. For every policy with \<open>maxAttempts = n \<ge> 1\<close> whose \<open>onRetry\<close> callback, when
  there is one, returns from each of its calls, and every operation that fails on every
  invocation, \<open>retry\<close> invokes the operation exactly \<open>n\<close> times and is then rejected with
  \<open>lastError\<close> as the \<open>n\<close>-th invocation left it: the error thrown by that invocation
  (wrapped in a new \<open>Error\<close> when the thrown value is not an \<open>Error\<close> instance).
\<close>

theorem retry_exhausts_after_maxAttempts:
  assumes "1 \<le> n" and "effective_maxAttempts options = int n"
    and "\<forall>k. 1 \<le> k \<and> k \<le> n \<longrightarrow> fn k = Inl (t k)"
    and "\<forall>f. onRetry options = Some f \<longrightarrow> (\<forall>k. 1 \<le> k \<and> k < n \<longrightarrow> f k (toError (t k)) = None)"
  shows "fst (retry fn options world0) = Rejected (ErrorInstance (toError (t n)))
     \<and> invocations (snd (retry fn options world0)) = n
     \<and> calls (snd (retry fn options world0)) = n"
proof -
  have "retry_exit fn options world0 =
          (Exhausted (Some (toError (t n))), \<lparr>calls = n,
             trace = expected_trace (onRetry options \<noteq> None) (effective_delayMs options)
                       (effective_backoffMultiplier options) t 1 n\<rparr>)"
  proof -
    have earlier: "\<forall>k. 1 \<le> k \<and> k < n \<longrightarrow> fn k = Inl (t k)"
      using assms(3) by simp
    have last: "fn n = Inl (t n)"
      using assms(1,3) by simp
    have "int n \<le> effective_maxAttempts options" and "isl (fn n) \<longrightarrow> int n = effective_maxAttempts options"
      using assms(2) by simp_all
    from retry_run [OF assms(1) this(1) earlier this(2) assms(4)] show ?thesis
      by (simp add: exit_of_def last)
  qed
  then show ?thesis
    using assms(1)
    by (simp add: retry_def invocations_def expected_trace_def invocations_concat)
qed

theorem retry_exhausts_after_maxAttempts_witness:
  "fst (retry (\<lambda>k. Inl (if k = 2 then NonError ''last'' else ErrorInstance (Error ''earlier'')) :: thrown + unit)
         \<lparr>maxAttempts = Some 2, delayMs = Some 10, backoffMultiplier = None,
          onRetry = Some (\<lambda>k e. None)\<rparr> world0)
     = Rejected (ErrorInstance (Error ''last''))
   \<and> invocations (snd (retry (\<lambda>k. Inl (if k = 2 then NonError ''last'' else ErrorInstance (Error ''earlier'')) :: thrown + unit)
         \<lparr>maxAttempts = Some 2, delayMs = Some 10, backoffMultiplier = None,
          onRetry = Some (\<lambda>k e. None)\<rparr> world0)) = 2"
proof -
  have one: "(1::nat) \<le> 2" by simp
  have max: "effective_maxAttempts \<lparr>maxAttempts = Some 2, delayMs = Some 10, backoffMultiplier = None,
          onRetry = Some (\<lambda>k e. None)\<rparr> = int 2"
    by (simp add: effective_maxAttempts_def)
  have fails: "\<forall>k. 1 \<le> k \<and> k \<le> 2 \<longrightarrow>
      (\<lambda>k. Inl (if k = 2 then NonError ''last'' else ErrorInstance (Error ''earlier'')) :: thrown + unit) k
        = Inl ((\<lambda>k. if k = 2 then NonError ''last'' else ErrorInstance (Error ''earlier'')) k)"
    by simp
  have returns: "\<forall>f. onRetry \<lparr>maxAttempts = Some 2, delayMs = Some 10, backoffMultiplier = None,
          onRetry = Some (\<lambda>k e. None)\<rparr> = Some f \<longrightarrow>
        (\<forall>k. 1 \<le> k \<and> k < 2 \<longrightarrow>
           f k (toError ((\<lambda>k. if k = 2 then NonError ''last'' else ErrorInstance (Error ''earlier'')) k)) = None)"
    by auto
  from retry_exhausts_after_maxAttempts [OF one max fails returns] show ?thesis
    by simp
qed

text \<open>
  C3 as first stated speaks of every policy. With \<open>maxAttempts = 2\<close>, an operation that
  always fails and an \<open>onRetry\<close> that throws, the exception of the callback leaves \<open>retry\<close>
  after the first attempt: the operation is invoked once, not twice, and \<open>retry\<close> is
  rejected with what the callback threw, not with the error of the operation.
\<close>

theorem retry_stops_when_onRetry_throws_counterexample:
  "effective_maxAttempts \<lparr>maxAttempts = Some 2, delayMs = None, backoffMultiplier = None,
       onRetry = Some (\<lambda>k e. Some (ErrorInstance (Error ''cb'')))\<rparr> = 2
   \<and> invocations (snd (retry (\<lambda>k. Inl (ErrorInstance (Error ''always fails'')) :: thrown + unit)
       \<lparr>maxAttempts = Some 2, delayMs = None, backoffMultiplier = None,
        onRetry = Some (\<lambda>k e. Some (ErrorInstance (Error ''cb'')))\<rparr> world0)) = 1
   \<and> fst (retry (\<lambda>k. Inl (ErrorInstance (Error ''always fails'')) :: thrown + unit)
       \<lparr>maxAttempts = Some 2, delayMs = None, backoffMultiplier = None,
        onRetry = Some (\<lambda>k e. Some (ErrorInstance (Error ''cb'')))\<rparr> world0)
     = Rejected (ErrorInstance (Error ''cb''))"
  by (simp add: retry_def retry_exit_def effective_maxAttempts_def effective_delayMs_def
      effective_backoffMultiplier_def world0_def retry_loop.simps invoke_def emit_def
      call_onRetry_def invocations_def Let_def)



text \<open>
  C9. \<open>retry\<close> leaves its loop with \<open>lastError\<close> unset, and so throws the fallback error
  \<open>Max retry attempts reached\<close>, exactly when \<open>maxAttempts < 1\<close>, where the loop body never
  runs. For \<open>maxAttempts \<ge> 1\<close>, when the attempts are exhausted \<open>lastError\<close> is the error of
  the last invocation, and that is what \<open>retry\<close> is rejected with.
\<close>

theorem retry_fallback_only_without_attempts:
  "(fst (retry_exit fn options world0) = Exhausted None \<longleftrightarrow> effective_maxAttempts options < 1)
   \<and> (effective_maxAttempts options < 1 \<longrightarrow>
        retry fn options world0 = (Rejected (ErrorInstance (Error ''Max retry attempts reached'')), world0))
   \<and> (\<forall>lastError. 1 \<le> effective_maxAttempts options
          \<and> fst (retry_exit fn options world0) = Exhausted lastError \<longrightarrow>
        (\<exists>e. fn (nat (effective_maxAttempts options)) = Inl e \<and> lastError = Some (toError e)
             \<and> fst (retry fn options world0) = Rejected (ErrorInstance (toError e))))"
proof -
  have none: "retry_exit fn options world0 = (Exhausted None, world0)"
    if "effective_maxAttempts options < 1"
    using that by (simp add: retry_exit_def retry_loop_no_attempt)
  have some: "\<exists>e. fn (nat (effective_maxAttempts options)) = Inl e \<and> lastError = Some (toError e)"
    if h1: "1 \<le> effective_maxAttempts options"
      and h2: "fst (retry_exit fn options world0) = Exhausted lastError"
    for lastError
  proof -
    obtain w' where "retry_exit fn options world0 = (Exhausted lastError, w')"
      using h2 by (cases "retry_exit fn options world0") simp
    then show ?thesis
      using h1 unfolding retry_exit_def
      by (intro retry_loop_exhausted [where a = 1 and w = world0 and w' = w']) (simp_all add: world0_def)
  qed
  have "fst (retry_exit fn options world0) = Exhausted None \<longleftrightarrow> effective_maxAttempts options < 1"
    using none some [of None] by fastforce
  moreover have "effective_maxAttempts options < 1 \<longrightarrow>
        retry fn options world0 = (Rejected (ErrorInstance (Error ''Max retry attempts reached'')), world0)"
    using none by (simp add: retry_def)
  moreover have "\<exists>e. fn (nat (effective_maxAttempts options)) = Inl e \<and> lastError = Some (toError e)
             \<and> fst (retry fn options world0) = Rejected (ErrorInstance (toError e))"
    if h1: "1 \<le> effective_maxAttempts options"
      and h2: "fst (retry_exit fn options world0) = Exhausted lastError"
    for lastError
  proof -
    from some [OF h1 h2] obtain e where e: "fn (nat (effective_maxAttempts options)) = Inl e"
      "lastError = Some (toError e)" by blast
    with h2 have "fst (retry fn options world0) = Rejected (ErrorInstance (toError e))"
      by (cases "retry_exit fn options world0") (simp add: retry_def)
    with e show ?thesis by blast
  qed
  ultimately show ?thesis by blast
qed

theorem retry_fallback_only_without_attempts_witness:
  "effective_maxAttempts \<lparr>maxAttempts = Some 0, delayMs = None, backoffMultiplier = None, onRetry = None\<rparr> < 1
   \<and> retry (\<lambda>k. Inr (k :: nat))
        \<lparr>maxAttempts = Some 0, delayMs = None, backoffMultiplier = None, onRetry = None\<rparr> world0
      = (Rejected (ErrorInstance (Error ''Max retry attempts reached'')), world0)
   \<and> 1 \<le> effective_maxAttempts \<lparr>maxAttempts = None, delayMs = None, backoffMultiplier = None, onRetry = None\<rparr>
   \<and> fst (retry_exit (\<lambda>k. Inl (NonError ''boom'') :: thrown + nat)
        \<lparr>maxAttempts = None, delayMs = None, backoffMultiplier = None, onRetry = None\<rparr> world0)
      \<noteq> Exhausted None"
  using retry_fallback_only_without_attempts [of "\<lambda>k. Inr (k :: nat)"
      "\<lparr>maxAttempts = Some 0, delayMs = None, backoffMultiplier = None, onRetry = None\<rparr>"]
    retry_fallback_only_without_attempts [of "\<lambda>k. Inl (NonError ''boom'') :: thrown + nat"
      "\<lparr>maxAttempts = None, delayMs = None, backoffMultiplier = None, onRetry = None\<rparr>"]
  by (simp add: effective_maxAttempts_def)

section \<open>Properties of waitUntil\<close>

text \<open>One turn of the loop: the time is up, the condition holds, or the loop sleeps and goes on.\<close>

lemma waitUntil_loop_timeout:
  "\<not> now w - startTime < timeout \<Longrightarrow>
     waitUntil_loop tm condition timeout interval err startTime w = Some (Threw err, w)"
  by (subst waitUntil_loop.simps) simp

lemma waitUntil_loop_true:
  "now w - startTime < timeout \<Longrightarrow> condition (Suc (evaluations w)) = Inr True \<Longrightarrow>
     waitUntil_loop tm condition timeout interval err startTime w =
       Some (Returned, snd (evaluate tm condition w))"
  by (subst waitUntil_loop.simps) (simp add: evaluate_def Let_def)

lemma waitUntil_loop_again:
  "now w - startTime < timeout \<Longrightarrow> condition (Suc (evaluations w)) \<noteq> Inr True \<Longrightarrow>
     waitUntil_loop tm condition timeout interval err startTime w =
       waitUntil_loop tm condition timeout interval err startTime
         (sleep tm interval (snd (evaluate tm condition w)))"
  by (subst waitUntil_loop.simps) (auto simp: evaluate_def Let_def split: sum.splits)

lemma throw_as_false_true: "throw_as_false x = Inr True \<longleftrightarrow> x = Inr True"
  by (cases x) simp_all

lemma throw_as_false_idem: "throw_as_false (throw_as_false x) = throw_as_false x"
  by (cases x) simp_all

lemma same_up_to_throws_true:
  "throw_as_false x = throw_as_false y \<Longrightarrow> x = Inr True \<longleftrightarrow> y = Inr True"
  by (metis throw_as_false_true)

lemma evaluate_world: "snd (evaluate tm c w) = snd (evaluate tm c' w)"
  by (simp add: evaluate_def Let_def)

text \<open>
  Two conditions that differ only in throwing where the other returns \<open>false\<close> give the
  same run.
\<close>

lemma waitUntil_loop_same_up_to_throws:
  assumes run: "waitUntil_loop tm c timeout interval err startTime w = Some r"
    and same: "\<forall>k. throw_as_false (c k) = throw_as_false (c' k)"
  shows "waitUntil_loop tm c' timeout interval err startTime w = Some r"
proof -
  have "\<forall>c'. (\<forall>k. throw_as_false (c k) = throw_as_false (c' k)) \<longrightarrow>
          waitUntil_loop tm c' timeout interval err startTime w = Some r"
  proof (rule waitUntil_loop.raw_induct
      [where P = "\<lambda>tm c timeout interval err startTime w r.
          \<forall>c'. (\<forall>k. throw_as_false (c k) = throw_as_false (c' k)) \<longrightarrow>
            waitUntil_loop tm c' timeout interval err startTime w = Some r", OF _ run])
    fix loop tm c timeout interval err startTime w r
    assume IH: "\<And>tm c timeout interval err startTime w y.
        loop tm c timeout interval err startTime w = Some y \<Longrightarrow>
        \<forall>c'. (\<forall>k. throw_as_false (c k) = throw_as_false (c' k)) \<longrightarrow>
          waitUntil_loop tm c' timeout interval err startTime w = Some y"
    assume body: "(if now w - startTime < timeout
        then case evaluate tm c w of
             (Inl error, w1) \<Rightarrow> loop tm c timeout interval err startTime (sleep tm interval w1)
           | (Inr result, w1) \<Rightarrow>
               if result then Some (Returned, w1)
               else loop tm c timeout interval err startTime (sleep tm interval w1)
        else Some (Threw err, w)) = Some r"
    show "\<forall>c'. (\<forall>k. throw_as_false (c k) = throw_as_false (c' k)) \<longrightarrow>
            waitUntil_loop tm c' timeout interval err startTime w = Some r"
    proof (intro allI impI)
      fix c'
      assume same: "\<forall>k. throw_as_false (c k) = throw_as_false (c' k)"
      show "waitUntil_loop tm c' timeout interval err startTime w = Some r"
      proof (cases "now w - startTime < timeout")
        case False
        with body show ?thesis by (simp add: waitUntil_loop_timeout)
      next
        case in_time: True
        show ?thesis
        proof (cases "c (Suc (evaluations w)) = Inr True")
          case True
          with same have "c' (Suc (evaluations w)) = Inr True"
            using same_up_to_throws_true by blast
          with body in_time True show ?thesis
            by (simp add: waitUntil_loop_true evaluate_def Let_def)
        next
          case False
          with same have other: "c' (Suc (evaluations w)) \<noteq> Inr True"
            using same_up_to_throws_true by blast
          from body in_time False
          have "loop tm c timeout interval err startTime
                  (sleep tm interval (snd (evaluate tm c w))) = Some r"
            by (auto simp: evaluate_def Let_def split: sum.splits if_splits)
          from IH [OF this] same
          have "waitUntil_loop tm c' timeout interval err startTime
                  (sleep tm interval (snd (evaluate tm c w))) = Some r"
            by blast
          with in_time other show ?thesis
            by (simp add: waitUntil_loop_again evaluate_world [of tm c' w c])
        qed
      qed
    qed
  qed
  with same show ?thesis by blast
qed

text \<open>A run that ends returns normally or throws the error made for the timeout.\<close>

lemma waitUntil_loop_results:
  assumes run: "waitUntil_loop tm c timeout interval err startTime w = Some r"
  shows "fst r = Returned \<or> fst r = Threw err"
proof (rule waitUntil_loop.raw_induct
    [where P = "\<lambda>tm c timeout interval err startTime w r. fst r = Returned \<or> fst r = Threw err",
      OF _ run])
  fix loop :: "timing \<Rightarrow> (nat \<Rightarrow> thrown + bool) \<Rightarrow> int \<Rightarrow> int \<Rightarrow> Error \<Rightarrow> int \<Rightarrow> poll_world
     \<Rightarrow> (wait_result \<times> poll_world) option"
  fix tm c timeout interval err startTime w r
  assume IH: "\<And>tm c timeout interval err startTime w y.
      loop tm c timeout interval err startTime w = Some y \<Longrightarrow>
      fst y = Returned \<or> fst y = Threw err"
  assume body: "(if now w - startTime < timeout
      then case evaluate tm c w of
           (Inl error, w1) \<Rightarrow> loop tm c timeout interval err startTime (sleep tm interval w1)
         | (Inr result, w1) \<Rightarrow>
             if result then Some (Returned, w1)
             else loop tm c timeout interval err startTime (sleep tm interval w1)
      else Some (Threw err, w)) = Some r"
  show "fst r = Returned \<or> fst r = Threw err"
  proof (cases "now w - startTime < timeout")
    case False
    with body show ?thesis by auto
  next
    case in_time: True
    show ?thesis
    proof (cases "c (Suc (evaluations w)) = Inr True")
      case True
      with body in_time show ?thesis by (auto simp: evaluate_def Let_def)
    next
      case False
      from body in_time False
      have "loop tm c timeout interval err startTime
              (sleep tm interval (snd (evaluate tm c w))) = Some r"
        by (auto simp: evaluate_def Let_def split: sum.splits if_splits)
      from IH [OF this] show ?thesis .
    qed
  qed
qed

text \<open>With a poll interval of at least one millisecond every run ends.\<close>

lemma waitUntil_loop_returns:
  assumes "1 \<le> interval"
  shows "\<exists>r. waitUntil_loop tm c timeout interval err startTime w = Some r"
proof (induction "nat (timeout - (now w - startTime))" arbitrary: w rule: less_induct)
  case less
  show ?case
  proof (cases "now w - startTime < timeout")
    case False
    then show ?thesis by (simp add: waitUntil_loop_timeout)
  next
    case in_time: True
    show ?thesis
    proof (cases "c (Suc (evaluations w)) = Inr True")
      case True
      with in_time show ?thesis by (simp add: waitUntil_loop_true)
    next
      case False
      let ?w = "sleep tm interval (snd (evaluate tm c w))"
      have "now w + 1 \<le> now ?w"
        using assms by (simp add: sleep_def evaluate_def Let_def)
      with in_time have "nat (timeout - (now ?w - startTime)) < nat (timeout - (now w - startTime))"
        by simp
      from less [OF this] in_time False show ?thesis
        by (simp add: waitUntil_loop_again)
    qed
  qed
qed

text \<open>While the time is not up and the evaluations do not return \<open>true\<close>, the loop goes on.\<close>

lemma after_polls_Suc:
  "after_polls tm c interval (Suc n) w = poll_once tm c interval (after_polls tm c interval n w)"
  by (induction n arbitrary: w) simp_all

lemma waitUntil_loop_after_polls:
  assumes "\<forall>j<n. now (after_polls tm c interval j w) - startTime < timeout
             \<and> c (Suc (evaluations (after_polls tm c interval j w))) \<noteq> Inr True"
  shows "waitUntil_loop tm c timeout interval err startTime w =
           waitUntil_loop tm c timeout interval err startTime (after_polls tm c interval n w)"
  using assms
proof (induction n arbitrary: w)
  case 0
  show ?case by simp
next
  case (Suc n)
  from Suc.prems have first: "now w - startTime < timeout" "c (Suc (evaluations w)) \<noteq> Inr True"
    by auto
  have rest: "\<forall>j<n. now (after_polls tm c interval j (poll_once tm c interval w)) - startTime < timeout
             \<and> c (Suc (evaluations (after_polls tm c interval j (poll_once tm c interval w)))) \<noteq> Inr True"
  proof (intro allI impI)
    fix j assume "j < n"
    then have "Suc j < Suc n" by simp
    with Suc.prems show "now (after_polls tm c interval j (poll_once tm c interval w)) - startTime < timeout
             \<and> c (Suc (evaluations (after_polls tm c interval j (poll_once tm c interval w)))) \<noteq> Inr True"
      by fastforce
  qed
  have "waitUntil_loop tm c timeout interval err startTime w =
          waitUntil_loop tm c timeout interval err startTime (poll_once tm c interval w)"
    using first by (simp add: waitUntil_loop_again poll_once_def)
  also have "\<dots> = waitUntil_loop tm c timeout interval err startTime
                    (after_polls tm c interval n (poll_once tm c interval w))"
    using rest by (rule Suc.IH)
  finally show ?case by simp
qed

text \<open>
  C5. An evaluation of the condition that throws is treated exactly like one that returns
  \<open>false\<close>: \<open>waitUntil\<close> behaves on a condition as on the same condition with every throw
  replaced by \<open>false\<close>; what a run ends with is a normal return or the timeout error, never
  the thrown value; for a poll interval of at least 1 ms the run does end. And polling
  continues: when in each of the first \<open>n\<close> rounds the time is not up and the evaluation
  throws or returns \<open>false\<close>, then after these rounds \<open>waitUntil\<close> throws the timeout error
  if the time is up, returns if the next evaluation returns \<open>true\<close>, and otherwise goes
  into another round.
\<close>

theorem waitUntil_swallows_throws:
  "waitUntil tm condition options w = waitUntil tm (\<lambda>k. throw_as_false (condition k)) options w
   \<and> (\<forall>r w'. waitUntil tm condition options w = Some (r, w') \<longrightarrow>
         r = Returned \<or> r = Threw (timeout_error options))
   \<and> (1 \<le> effective_pollIntervalMs options \<longrightarrow>
         (\<exists>r w'. waitUntil tm condition options w = Some (r, w')))
   \<and> ((\<forall>j<n. now (after_polls tm condition (effective_pollIntervalMs options) j w) - now w
                  < effective_timeoutMs options
              \<and> condition (Suc (evaluations (after_polls tm condition (effective_pollIntervalMs options) j w)))
                  \<noteq> Inr True) \<longrightarrow>
        waitUntil tm condition options w =
          (if now (after_polls tm condition (effective_pollIntervalMs options) n w) - now w
                < effective_timeoutMs options
           then if condition (Suc (evaluations (after_polls tm condition (effective_pollIntervalMs options) n w)))
                     = Inr True
                then Some (Returned,
                       snd (evaluate tm condition
                              (after_polls tm condition (effective_pollIntervalMs options) n w)))
                else waitUntil_loop tm condition (effective_timeoutMs options)
                       (effective_pollIntervalMs options) (timeout_error options) (now w)
                       (after_polls tm condition (effective_pollIntervalMs options) (Suc n) w)
           else Some (Threw (timeout_error options),
                  after_polls tm condition (effective_pollIntervalMs options) n w)))"
proof -
  let ?swallowed = "\<lambda>k. throw_as_false (condition k)"
  let ?interval = "effective_pollIntervalMs options"
  let ?timeout = "effective_timeoutMs options"
  let ?loop = "waitUntil_loop tm condition ?timeout ?interval (timeout_error options) (now w)"
  let ?after = "\<lambda>j. after_polls tm condition ?interval j w"
  have idem: "\<forall>k. throw_as_false (condition k) = throw_as_false (?swallowed k)"
    by (simp add: throw_as_false_idem)
  have to_swallowed: "waitUntil tm ?swallowed options w = Some r"
    if "waitUntil tm condition options w = Some r" for r
    using that idem waitUntil_loop_same_up_to_throws [of tm condition _ _ _ _ w r "?swallowed"]
    unfolding waitUntil_def Let_def by blast
  have from_swallowed: "waitUntil tm condition options w = Some r"
    if "waitUntil tm ?swallowed options w = Some r" for r
    using that idem waitUntil_loop_same_up_to_throws [of tm "?swallowed" _ _ _ _ w r condition]
    unfolding waitUntil_def Let_def by (simp add: throw_as_false_idem)
  have "waitUntil tm condition options w = waitUntil tm ?swallowed options w"
  proof (cases "waitUntil tm condition options w")
    case None
    with from_swallowed show ?thesis by (cases "waitUntil tm ?swallowed options w") auto
  next
    case (Some r)
    with to_swallowed show ?thesis by simp
  qed
  moreover have "r = Returned \<or> r = Threw (timeout_error options)"
    if "waitUntil tm condition options w = Some (r, w')" for r w'
    using that waitUntil_loop_results [of tm condition _ _ "timeout_error options" _ w "(r, w')"]
    unfolding waitUntil_def Let_def by simp
  moreover have "\<exists>r w'. waitUntil tm condition options w = Some (r, w')"
    if "1 \<le> effective_pollIntervalMs options"
    using waitUntil_loop_returns [OF that, of tm condition]
    unfolding waitUntil_def Let_def by simp
  moreover have "waitUntil tm condition options w =
          (if now (?after n) - now w < ?timeout
           then if condition (Suc (evaluations (?after n))) = Inr True
                then Some (Returned, snd (evaluate tm condition (?after n)))
                else ?loop (?after (Suc n))
           else Some (Threw (timeout_error options), ?after n))"
    if rounds: "\<forall>j<n. now (?after j) - now w < ?timeout
                  \<and> condition (Suc (evaluations (?after j))) \<noteq> Inr True"
  proof -
    have "waitUntil tm condition options w = ?loop w"
      by (simp add: waitUntil_def)
    also have "\<dots> = ?loop (?after n)"
      using rounds by (rule waitUntil_loop_after_polls)
    also have "\<dots> = (if now (?after n) - now w < ?timeout
           then if condition (Suc (evaluations (?after n))) = Inr True
                then Some (Returned, snd (evaluate tm condition (?after n)))
                else ?loop (?after (Suc n))
           else Some (Threw (timeout_error options), ?after n))"
      by (simp add: waitUntil_loop_timeout waitUntil_loop_true waitUntil_loop_again
          after_polls_Suc poll_once_def del: after_polls.simps)
    finally show ?thesis .
  qed
  ultimately show ?thesis by blast
qed

theorem waitUntil_swallows_throws_witness:
  "waitUntil \<lparr>took = (\<lambda>k. 0), late = (\<lambda>j. 0)\<rparr>
       (\<lambda>k. if k = 1 then Inl (NonError ''not ready'') else Inr (3 \<le> k))
       \<lparr>timeoutMs = Some 1000, pollIntervalMs = Some 10, message = None\<rparr>
       \<lparr>now = 0, evaluations = 0, sleeps = []\<rparr>
     = Some (Returned, \<lparr>now = 20, evaluations = 3, sleeps = [10, 10]\<rparr>)
   \<and> waitUntil \<lparr>took = (\<lambda>k. 0), late = (\<lambda>j. 0)\<rparr>
       (\<lambda>k. throw_as_false (if k = 1 then Inl (NonError ''not ready'') else Inr (3 \<le> k)))
       \<lparr>timeoutMs = Some 1000, pollIntervalMs = Some 10, message = None\<rparr>
       \<lparr>now = 0, evaluations = 0, sleeps = []\<rparr>
     = Some (Returned, \<lparr>now = 20, evaluations = 3, sleeps = [10, 10]\<rparr>)
   \<and> 1 \<le> effective_pollIntervalMs \<lparr>timeoutMs = Some 1000, pollIntervalMs = Some 10, message = None\<rparr>"
proof -
  let ?tm = "\<lparr>took = (\<lambda>k. 0), late = (\<lambda>j. 0)\<rparr>"
  let ?c = "\<lambda>k::nat. if k = 1 then Inl (NonError ''not ready'') else Inr (3 \<le> k)"
  let ?opts = "\<lparr>timeoutMs = Some 1000, pollIntervalMs = Some 10, message = None\<rparr>"
  let ?w = "\<lparr>now = 0, evaluations = 0, sleeps = []\<rparr>"
  have eff: "effective_pollIntervalMs ?opts = 10" "effective_timeoutMs ?opts = 1000"
    by (simp_all add: effective_pollIntervalMs_def effective_timeoutMs_def)
  have a0: "after_polls ?tm ?c 10 0 ?w = ?w"
    by simp
  have a1: "after_polls ?tm ?c 10 (Suc 0) ?w = \<lparr>now = 10, evaluations = 1, sleeps = [10]\<rparr>"
    by (simp add: poll_once_def evaluate_def sleep_def Let_def)
  have a2: "after_polls ?tm ?c 10 (Suc (Suc 0)) ?w = \<lparr>now = 20, evaluations = 2, sleeps = [10, 10]\<rparr>"
    by (simp add: poll_once_def evaluate_def sleep_def Let_def)
  have rounds: "\<forall>j<Suc (Suc 0). now (after_polls ?tm ?c (effective_pollIntervalMs ?opts) j ?w) - now ?w
                   < effective_timeoutMs ?opts
                 \<and> ?c (Suc (evaluations (after_polls ?tm ?c (effective_pollIntervalMs ?opts) j ?w))) \<noteq> Inr True"
  proof (intro allI impI)
    fix j :: nat assume "j < Suc (Suc 0)"
    then have "j = 0 \<or> j = Suc 0" by auto
    then show "now (after_polls ?tm ?c (effective_pollIntervalMs ?opts) j ?w) - now ?w
                   < effective_timeoutMs ?opts
                 \<and> ?c (Suc (evaluations (after_polls ?tm ?c (effective_pollIntervalMs ?opts) j ?w))) \<noteq> Inr True"
      unfolding eff using a0 a1 by auto
  qed
  note all = waitUntil_swallows_throws [of ?tm ?c ?opts ?w "Suc (Suc 0)"]
  from all have same: "waitUntil ?tm ?c ?opts ?w = waitUntil ?tm (\<lambda>k. throw_as_false (?c k)) ?opts ?w"
    by (rule conjunct1)
  from all [THEN conjunct2, THEN conjunct2, THEN conjunct2] rounds
  have "waitUntil ?tm ?c ?opts ?w =
          (if now (after_polls ?tm ?c (effective_pollIntervalMs ?opts) (Suc (Suc 0)) ?w) - now ?w
                < effective_timeoutMs ?opts
           then if ?c (Suc (evaluations (after_polls ?tm ?c (effective_pollIntervalMs ?opts) (Suc (Suc 0)) ?w)))
                     = Inr True
                then Some (Returned,
                       snd (evaluate ?tm ?c
                              (after_polls ?tm ?c (effective_pollIntervalMs ?opts) (Suc (Suc 0)) ?w)))
                else waitUntil_loop ?tm ?c (effective_timeoutMs ?opts)
                       (effective_pollIntervalMs ?opts) (timeout_error ?opts) (now ?w)
                       (after_polls ?tm ?c (effective_pollIntervalMs ?opts) (Suc (Suc (Suc 0))) ?w)
           else Some (Threw (timeout_error ?opts),
                  after_polls ?tm ?c (effective_pollIntervalMs ?opts) (Suc (Suc 0)) ?w))"
    by (rule mp)
  then have run: "waitUntil ?tm ?c ?opts ?w = Some (Returned, \<lparr>now = 20, evaluations = 3, sleeps = [10, 10]\<rparr>)"
    unfolding eff a2 by (simp add: evaluate_def Let_def)
  from run same have "waitUntil ?tm (\<lambda>k. throw_as_false (?c k)) ?opts ?w
      = Some (Returned, \<lparr>now = 20, evaluations = 3, sleeps = [10, 10]\<rparr>)"
    by simp
  with run show ?thesis
    by (simp add: eff)
qed

text \<open>
  C6. When the first evaluation of the condition returns \<open>true\<close>, \<open>waitUntil\<close> with the
  default options (timeout 5000 ms, interval 100 ms) returns after that single
  evaluation and without sleeping.
\<close>

theorem waitUntil_true_at_once:
  assumes "condition (Suc (evaluations w)) = Inr True"
  shows "\<exists>w'. waitUntil tm condition default_options w = Some (Returned, w')
           \<and> evaluations w' = Suc (evaluations w) \<and> sleeps w' = sleeps w"
  using assms
  by (simp add: waitUntil_def default_options_def effective_timeoutMs_def waitUntil_loop_true
      evaluate_def Let_def)

theorem waitUntil_true_at_once_witness:
  "(\<lambda>k. Inr True :: thrown + bool) (Suc (evaluations \<lparr>now = 1000, evaluations = 0, sleeps = []\<rparr>)) = Inr True
   \<and> (\<exists>w'. waitUntil \<lparr>took = (\<lambda>k. 3), late = (\<lambda>j. 0)\<rparr> (\<lambda>k. Inr True) default_options
               \<lparr>now = 1000, evaluations = 0, sleeps = []\<rparr> = Some (Returned, w')
            \<and> evaluations w' = 1 \<and> sleeps w' = [])"
  using waitUntil_true_at_once [of "\<lambda>k. Inr True" "\<lparr>now = 1000, evaluations = 0, sleeps = []\<rparr>"
      "\<lparr>took = (\<lambda>k. 3), late = (\<lambda>j. 0)\<rparr>"]
  by simp

text \<open>
  C10. With \<open>timeoutMs \<le> 0\<close>, \<open>waitUntil\<close> throws the timeout error and leaves its
  surroundings as they were: the condition is never evaluated, whatever it would return,
  because the elapsed time is tested before the first evaluation.
\<close>

theorem waitUntil_nonpositive_timeout:
  assumes "effective_timeoutMs options \<le> 0"
  shows "waitUntil tm condition options w = Some (Threw (timeout_error options), w)"
  using assms by (simp add: waitUntil_def waitUntil_loop_timeout)

theorem waitUntil_nonpositive_timeout_witness:
  "effective_timeoutMs \<lparr>timeoutMs = Some 0, pollIntervalMs = None, message = None\<rparr> \<le> 0
   \<and> waitUntil \<lparr>took = (\<lambda>k. 0), late = (\<lambda>j. 0)\<rparr> (\<lambda>k. Inr True)
        \<lparr>timeoutMs = Some 0, pollIntervalMs = None, message = None\<rparr>
        \<lparr>now = 1000, evaluations = 0, sleeps = []\<rparr>
      = Some (Threw (Error ''Timeout waiting for condition (timeout: 0ms)''),
              \<lparr>now = 1000, evaluations = 0, sleeps = []\<rparr>)"
  using waitUntil_nonpositive_timeout [of "\<lparr>timeoutMs = Some 0, pollIntervalMs = None, message = None\<rparr>"
      "\<lparr>took = (\<lambda>k. 0), late = (\<lambda>j. 0)\<rparr>" "\<lambda>k. Inr True"
      "\<lparr>now = 1000, evaluations = 0, sleeps = []\<rparr>"]
  by (simp add: effective_timeoutMs_def effective_message_def timeout_error_def
      number_to_string_def decimal.simps digit_char_def)

end
